theory Spec2Isabelle
  imports Main "HOL-Library.Word"
begin

section \<open>JavaScript strings and the built-ins used by DownloadFramework.js\<close>

text \<open>
  A JavaScript string is a sequence of 16-bit code units. Literals of the source are
  written \<open>js ''...''\<close>; a line feed is the code unit \<open>LF\<close>.
\<close>

type_synonym jchar = "16 word"
type_synonym jstring = "jchar list"

definition js :: "string \<Rightarrow> jstring" where
  "js = map of_char"

definition LF :: jchar where "LF = 0x0A"
definition CR :: jchar where "CR = 0x0D"

text \<open>
  Thrown values. Only the \<open>message\<close> of a caught value is read by the program.
\<close>

datatype js_error =
    Error (message: jstring)
  | TypeError (message: jstring)
  | URIError (message: jstring)

text \<open>
  A value that is a string or \<open>undefined\<close> is a \<open>jstring option\<close>. The test
  \<open>!s\<close> of the source holds of \<open>undefined\<close> and of the empty string; the model
  writes both cases out.
\<close>

definition startsWith :: "jstring \<Rightarrow> jstring \<Rightarrow> bool" where
  "startsWith s t = (take (length t) s = t)"

definition endsWith :: "jstring \<Rightarrow> jstring \<Rightarrow> bool" where
  "endsWith s t = (length t \<le> length s \<and> drop (length s - length t) s = t)"

text \<open>\<open>s.split(sep)\<close> for a separator of one code unit, and \<open>parts.join(sep)\<close>.\<close>

fun cons_first :: "jchar \<Rightarrow> jstring list \<Rightarrow> jstring list" where
  "cons_first c [] = [[c]]"
| "cons_first c (l # ls) = (c # l) # ls"

fun split :: "jchar \<Rightarrow> jstring \<Rightarrow> jstring list" where
  "split sep [] = [[]]"
| "split sep (c # cs) =
     (if c = sep then [] # split sep cs else cons_first c (split sep cs))"

fun join :: "jstring \<Rightarrow> jstring list \<Rightarrow> jstring" where
  "join sep [] = []"
| "join sep [x] = x"
| "join sep (x # y # ys) = x @ sep @ join sep (y # ys)"

text \<open>\<open>xs.indexOf(x)\<close>: the first index holding \<open>x\<close>, or \<open>-1\<close>.\<close>

fun indexOf :: "'a list \<Rightarrow> 'a \<Rightarrow> int" where
  "indexOf [] x = - 1"
| "indexOf (y # ys) x =
     (if y = x then 0 else (let i = indexOf ys x in if i < 0 then - 1 else i + 1))"

subsection \<open>String.prototype.replace with a non-global pattern\<close>

text \<open>
  The replacement text is expanded by GetSubstitution: \<open>$$\<close>, \<open>$&\<close>, \<open>$`\<close> and
  \<open>$'\<close> are special; the patterns of this program have no capture groups, so every
  other \<open>$\<close> stands for itself.
\<close>

fun getSubstitution :: "jstring \<Rightarrow> jstring \<Rightarrow> jstring \<Rightarrow> jstring \<Rightarrow> jstring" where
  "getSubstitution matched pre post [] = []"
| "getSubstitution matched pre post [c] = [c]"
| "getSubstitution matched pre post (c # d # cs) =
     (if c = 0x24 \<and> d = 0x24 then 0x24 # getSubstitution matched pre post cs
      else if c = 0x24 \<and> d = 0x26 then matched @ getSubstitution matched pre post cs
      else if c = 0x24 \<and> d = 0x60 then pre @ getSubstitution matched pre post cs
      else if c = 0x24 \<and> d = 0x27 then post @ getSubstitution matched pre post cs
      else c # getSubstitution matched pre post (d # cs))"

text \<open>
  \<open>matcher s\<close> is the length of the match of the pattern at the start of \<open>s\<close>, if it
  matches there. The leftmost position that matches is replaced; \<open>pre\<close> is the text
  already passed.
\<close>

fun replace_from :: "(jstring \<Rightarrow> nat option) \<Rightarrow> jstring \<Rightarrow> jstring \<Rightarrow> jstring \<Rightarrow> jstring" where
  "replace_from matcher repl pre [] =
     (case matcher [] of
        Some n \<Rightarrow> pre @ getSubstitution [] pre [] repl
      | None \<Rightarrow> pre)"
| "replace_from matcher repl pre (c # cs) =
     (case matcher (c # cs) of
        Some n \<Rightarrow> pre @ getSubstitution (take n (c # cs)) pre (drop n (c # cs)) repl
                   @ drop n (c # cs)
      | None \<Rightarrow> replace_from matcher repl (pre @ [c]) cs)"

definition replace :: "(jstring \<Rightarrow> nat option) \<Rightarrow> jstring \<Rightarrow> jstring \<Rightarrow> jstring" where
  "replace matcher repl s = replace_from matcher repl [] s"

text \<open>A pattern that is a literal string.\<close>

definition literal :: "jstring \<Rightarrow> jstring \<Rightarrow> nat option" where
  "literal pat s = (if startsWith s pat then Some (length pat) else None)"

subsection \<open>encodeURIComponent\<close>

text \<open>
  Unreserved code units (ASCII letters, digits and \<open>- _ . ! ~ * ' ( )\<close>) are kept.
  Every other code point is written as the percent-escaped bytes of its UTF-8 form.
  An unpaired surrogate makes the call throw a URIError.
\<close>

definition unreserved :: "jchar \<Rightarrow> bool" where
  "unreserved c =
     (let n = unat c in
      (0x41 \<le> n \<and> n \<le> 0x5A) \<or> (0x61 \<le> n \<and> n \<le> 0x7A) \<or> (0x30 \<le> n \<and> n \<le> 0x39)
      \<or> n \<in> {0x2D, 0x5F, 0x2E, 0x21, 0x7E, 0x2A, 0x27, 0x28, 0x29})"

definition hex_digit :: "nat \<Rightarrow> jchar" where
  "hex_digit d = (if d < 10 then of_nat (0x30 + d) else of_nat (0x41 + (d - 10)))"

definition percent :: "nat \<Rightarrow> jstring" where
  "percent b = [0x25, hex_digit (b div 16), hex_digit (b mod 16)]"

definition utf8 :: "nat \<Rightarrow> nat list" where
  "utf8 v =
     (if v < 0x80 then [v]
      else if v < 0x800 then [0xC0 + v div 0x40, 0x80 + v mod 0x40]
      else if v < 0x10000 then
        [0xE0 + v div 0x1000, 0x80 + (v div 0x40) mod 0x40, 0x80 + v mod 0x40]
      else
        [0xF0 + v div 0x40000, 0x80 + (v div 0x1000) mod 0x40,
         0x80 + (v div 0x40) mod 0x40, 0x80 + v mod 0x40])"

definition escape :: "nat \<Rightarrow> jstring" where
  "escape v = concat (map percent (utf8 v))"

definition is_high_surrogate :: "jchar \<Rightarrow> bool" where
  "is_high_surrogate c = (0xD800 \<le> unat c \<and> unat c \<le> 0xDBFF)"

definition is_low_surrogate :: "jchar \<Rightarrow> bool" where
  "is_low_surrogate c = (0xDC00 \<le> unat c \<and> unat c \<le> 0xDFFF)"

definition malformed :: js_error where
  "malformed = URIError (js ''URI malformed'')"

fun prepend :: "jstring \<Rightarrow> js_error + jstring \<Rightarrow> js_error + jstring" where
  "prepend p (Inl e) = Inl e"
| "prepend p (Inr s) = Inr (p @ s)"

fun encodeURIComponent :: "jstring \<Rightarrow> js_error + jstring" where
  "encodeURIComponent [] = Inr []"
| "encodeURIComponent [c] =
     (if unreserved c then Inr [c]
      else if is_low_surrogate c \<or> is_high_surrogate c then Inl malformed
      else Inr (escape (unat c)))"
| "encodeURIComponent (c # d # cs) =
     (if unreserved c then prepend [c] (encodeURIComponent (d # cs))
      else if is_low_surrogate c then Inl malformed
      else if \<not> is_high_surrogate c then
        prepend (escape (unat c)) (encodeURIComponent (d # cs))
      else if \<not> is_low_surrogate d then Inl malformed
      else prepend (escape ((unat c - 0xD800) * 0x400 + (unat d - 0xDC00) + 0x10000))
             (encodeURIComponent cs))"

subsection \<open>The regular expressions of the source\<close>

text \<open>
  \<open>text.split(/\r?\n/)\<close>: a line feed, or a carriage return directly followed by a line
  feed, ends a line. A carriage return followed by anything else stays in its line.
\<close>

fun split_lines :: "jstring \<Rightarrow> jstring list" where
  "split_lines [] = [[]]"
| "split_lines [c] = (if c = LF then [[], []] else [[c]])"
| "split_lines (c # d # cs) =
     (if c = CR \<and> d = LF then [] # split_lines cs
      else if c = LF then [] # split_lines (d # cs)
      else cons_first c (split_lines (d # cs)))"

text \<open>
  \<open>/amp-geo-([\d.]+|latest)\.m?js/.test(filepath)\<close>. The pattern is not anchored: it
  may match anywhere in the path. \<open>[\d.]+\<close> may give characters back, so every
  non-empty prefix of the run of digits and dots is tried.
\<close>

definition digit_or_dot :: "jchar \<Rightarrow> bool" where
  "digit_or_dot c = (c = 0x2E \<or> (0x30 \<le> unat c \<and> unat c \<le> 0x39))"

definition extension_at :: "jstring \<Rightarrow> bool" where
  "extension_at s = (startsWith s (js ''.js'') \<or> startsWith s (js ''.mjs''))"

definition amp_geo_at :: "jstring \<Rightarrow> bool" where
  "amp_geo_at s =
     (startsWith s (js ''amp-geo-'') \<and>
      (let t = drop 8 s in
       list_ex (\<lambda>n. extension_at (drop n t)) [1 ..< Suc (length (takeWhile digit_or_dot t))]
       \<or> (startsWith t (js ''latest'') \<and> extension_at (drop 6 t))))"

fun test_amp_geo :: "jstring \<Rightarrow> bool" where
  "test_amp_geo [] = amp_geo_at []"
| "test_amp_geo (c # cs) = (amp_geo_at (c # cs) \<or> test_amp_geo cs)"

text \<open>
  \<open>/[a-z]{2} {26}/i\<close>: the flag \<open>i\<close> makes the class match ASCII letters of
  either case (without the flag \<open>u\<close> no code unit outside ASCII folds into it).
\<close>

definition ascii_letter :: "jchar \<Rightarrow> bool" where
  "ascii_letter c =
     ((0x41 \<le> unat c \<and> unat c \<le> 0x5A) \<or> (0x61 \<le> unat c \<and> unat c \<le> 0x7A))"

definition country_at :: "jstring \<Rightarrow> bool" where
  "country_at s =
     (case s of
        a # b # rest \<Rightarrow>
          ascii_letter a \<and> ascii_letter b \<and> 26 \<le> length rest
          \<and> list_all (\<lambda>c. c = 0x20) (take 26 rest)
      | _ \<Rightarrow> False)"

definition country_pattern :: "jstring \<Rightarrow> nat option" where
  "country_pattern s = (if country_at s then Some 28 else None)"

definition HOTPATCH :: jstring where
  "HOTPATCH = js ''{{AMP_ISO_COUNTRY_HOTPATCH}}''"

definition hotpatch :: "jstring \<Rightarrow> jstring" where
  "hotpatch t = replace country_pattern HOTPATCH t"

section \<open>The environment\<close>

text \<open>
  Everything outside the source file is a parameter: the platform (\<open>os\<close>, \<open>path\<close>),
  the URL parser, the file system, the two collaborating packages and the fetch
  function. A run records in a log, in program order, the requests it sends and the
  changes it asks of the file system; questions to the file system (\<open>existsSync\<close>,
  \<open>lstatSync\<close>, \<open>accessSync\<close>) and the reading of a response are not recorded.
  Each primitive answers as a function of the log so far, so the same call may be
  answered differently at different moments of a run.

  The two collaborating packages answer as their interface says: version discovery
  with a version or nothing, the cache list with a cache or nothing.
\<close>

record fetchOptions =
  keepAlive :: bool
  maxSockets :: nat
  compress :: bool

record response =
  ok :: bool
  res_text :: "js_error + jstring"
  res_body :: "8 word list"

record dirent =
  name :: jstring
  isDirectory :: bool

record cache =
  cacheDomain :: jstring

datatype event =
    MkdirSync jstring
  | CurrentVersion "jstring option"
  | CachesGet jstring
  | Fetch jstring "fetchOptions option"
  | Readdir jstring
  | Rmdir jstring
  | Unlink jstring
  | CreateWriteStream jstring
  | Write jstring jstring
  | Pipe jstring "8 word list"

record world =
  os_type :: jstring
  path_sep :: jchar
  os_homedir :: jstring
  path_join :: "jstring \<Rightarrow> jstring \<Rightarrow> jstring"
  path_dirname :: "jstring \<Rightarrow> jstring"
  new_URL :: "jstring \<Rightarrow> bool"
  existsSync :: "event list \<Rightarrow> jstring \<Rightarrow> bool"
  lstat_isDirectory :: "event list \<Rightarrow> jstring \<Rightarrow> js_error + bool"
  mkdirSync :: "event list \<Rightarrow> jstring \<Rightarrow> js_error option"
  accessSync :: "event list \<Rightarrow> jstring \<Rightarrow> js_error option"
  currentVersion :: "event list \<Rightarrow> jstring option \<Rightarrow> jstring option"
  Caches_get :: "event list \<Rightarrow> jstring \<Rightarrow> cache option"
  fetch :: "event list \<Rightarrow> jstring \<Rightarrow> fetchOptions option \<Rightarrow> js_error + response"
  readdir :: "event list \<Rightarrow> jstring \<Rightarrow> js_error + dirent list"
  rmdir :: "event list \<Rightarrow> jstring \<Rightarrow> js_error option"
  unlink :: "event list \<Rightarrow> jstring \<Rightarrow> js_error option"
  stream_end :: "event list \<Rightarrow> jstring \<Rightarrow> js_error option"
  settled_at :: "event list \<Rightarrow> nat \<Rightarrow> nat"

text \<open>
  \<open>new_URL u\<close> tells whether \<open>new URL(u)\<close> parses; \<open>lstat_isDirectory\<close> is
  \<open>fs.lstatSync(p).isDirectory()\<close>; a primitive returning \<open>js_error option\<close> throws
  (or rejects with) the error, or succeeds with \<open>None\<close>. \<open>stream_end\<close> is the event
  that ends a write stream: \<open>finish\<close> (\<open>None\<close>) or \<open>error\<close>.
  \<open>settled_at log i\<close> is the moment at which the \<open>i\<close>-th of a group of concurrent
  operations settles.
\<close>

subsection \<open>Promise.all\<close>

text \<open>
  The combined promise rejects with the reason of the operation that rejects first in
  time (the lower index wins a tie), and is fulfilled when no operation rejects.
\<close>

fun rejections :: "nat \<Rightarrow> (js_error + 'a) list \<Rightarrow> (nat \<times> js_error) list" where
  "rejections i [] = []"
| "rejections i (Inl e # rs) = (i, e) # rejections (Suc i) rs"
| "rejections i (Inr v # rs) = rejections (Suc i) rs"

fun earliest :: "(nat \<Rightarrow> nat) \<Rightarrow> (nat \<times> js_error) list \<Rightarrow> (nat \<times> js_error) option" where
  "earliest t [] = None"
| "earliest t (x # xs) =
     (case earliest t xs of
        None \<Rightarrow> Some x
      | Some y \<Rightarrow> if t (fst x) \<le> t (fst y) then Some x else Some y)"

definition Promise_all :: "(nat \<Rightarrow> nat) \<Rightarrow> (js_error + 'a) list \<Rightarrow> js_error + 'a list" where
  "Promise_all t outcomes =
     (case earliest t (rejections 0 outcomes) of
        Some (i, e) \<Rightarrow> Inl e
      | None \<Rightarrow> Inr (concat (map (\<lambda>r. case r of Inl e \<Rightarrow> [] | Inr v \<Rightarrow> [v]) outcomes)))"

section \<open>DownloadFramework.js\<close>

text \<open>
  The argument of \<open>getFramework\<close>; an absent field is \<open>None\<close>. Its fields carry the
  prefix \<open>opt_\<close>: the source gives their plain names to local variables.
\<close>

record options =
  opt_clear :: "bool option"
  opt_ampUrlPrefix :: "jstring option"
  opt_dest :: "jstring option"
  opt_rtv :: "jstring option"

text \<open>
  The response object \<open>ret\<close>. Its fields \<open>dest\<close> and \<open>rtv\<close> are \<open>ret_dest\<close> and
  \<open>ret_rtv\<close> here, and the field \<open>url\<close> of a manifest entry is \<open>file_url\<close>.
\<close>

record result =
  status :: bool
  error :: jstring
  count :: nat
  url :: jstring
  ret_dest :: "jstring option"
  ret_rtv :: jstring

record framework_file =
  filepath :: jstring
  file_url :: jstring

definition FRAMEWORK_FILES_TXT :: jstring where
  "FRAMEWORK_FILES_TXT = js ''files.txt''"

definition the_fetchOptions :: fetchOptions where
  "the_fetchOptions = \<lparr>keepAlive = True, maxSockets = 6, compress = True\<rparr>"

type_synonym run = "(js_error + result) \<times> event list"

subsection \<open>Private methods\<close>

text \<open>
  The private methods carry their names of the source without the trailing underscore.

  \<open>assertDirectoryWritable_\<close>. On success the model hands back the path, which is then
  known to be a non-empty string.
\<close>

definition access_step :: "world \<Rightarrow> event list \<Rightarrow> jstring \<Rightarrow> (js_error + jstring) \<times> event list" where
  "access_step w log dirpath =
     (case accessSync w log dirpath of
        Some ex \<Rightarrow> (Inl ex, log)
      | None \<Rightarrow> (Inr dirpath, log))"

definition mkdir_step :: "world \<Rightarrow> event list \<Rightarrow> jstring \<Rightarrow> (js_error + jstring) \<times> event list" where
  "mkdir_step w log dirpath =
     (case mkdirSync w log dirpath of
        Some ex \<Rightarrow> (Inl ex, log @ [MkdirSync dirpath])
      | None \<Rightarrow> access_step w (log @ [MkdirSync dirpath]) dirpath)"

definition assertDirectoryWritable ::
  "world \<Rightarrow> event list \<Rightarrow> jstring option \<Rightarrow> (js_error + jstring) \<times> event list" where
  "assertDirectoryWritable w log dirpath =
     (case dirpath of
        None \<Rightarrow> (Inl (Error (js ''Directory not specified'')), log)
      | Some p \<Rightarrow>
          if p = [] then (Inl (Error (js ''Directory not specified'')), log)
          else if \<not> existsSync w log p then mkdir_step w log p
          else (case lstat_isDirectory w log p of
                  Inl ex \<Rightarrow> (Inl ex, log)
                | Inr d \<Rightarrow> if \<not> d then mkdir_step w log p else access_step w log p))"

text \<open>
  \<open>clearDirectory_\<close>. Every removal is requested, in the order of the listing, before
  any of them settles.
\<close>

definition removal :: "world \<Rightarrow> jstring \<Rightarrow> dirent \<Rightarrow> event" where
  "removal w dirpath item =
     (if isDirectory item then Rmdir (path_join w dirpath (name item))
      else Unlink (path_join w dirpath (name item)))"

definition remove_item :: "world \<Rightarrow> event list \<Rightarrow> jstring \<Rightarrow> dirent \<Rightarrow> js_error option" where
  "remove_item w log dirpath item =
     (if isDirectory item then rmdir w log (path_join w dirpath (name item))
      else unlink w log (path_join w dirpath (name item)))"

fun remove_items ::
  "world \<Rightarrow> event list \<Rightarrow> jstring \<Rightarrow> dirent list \<Rightarrow> (js_error + unit) list \<times> event list" where
  "remove_items w log dirpath [] = ([], log)"
| "remove_items w log dirpath (item # items) =
     (let r = (case remove_item w log dirpath item of None \<Rightarrow> Inr () | Some ex \<Rightarrow> Inl ex);
          (rs, log') = remove_items w (log @ [removal w dirpath item]) dirpath items
      in (r # rs, log'))"

definition clearDirectory ::
  "world \<Rightarrow> event list \<Rightarrow> jstring \<Rightarrow> (js_error + unit list) \<times> event list" where
  "clearDirectory w log dirpath =
     (case readdir w log dirpath of
        Inl ex \<Rightarrow> (Inl ex, log @ [Readdir dirpath])
      | Inr contents \<Rightarrow>
          (let (outcomes, log') = remove_items w (log @ [Readdir dirpath]) dirpath contents
           in (Promise_all (settled_at w log') outcomes, log')))"

definition isAbsoluteUrl :: "world \<Rightarrow> jstring \<Rightarrow> bool" where
  "isAbsoluteUrl w u = new_URL w u"

text \<open>\<open>createSubdirectories_\<close>; \<open>make_dirs\<close> is its \<open>forEach\<close>.\<close>

fun unique_from :: "jstring list \<Rightarrow> int \<Rightarrow> jstring list \<Rightarrow> jstring list" where
  "unique_from dirs idx [] = []"
| "unique_from dirs idx (dir # rest) =
     (if dir \<noteq> js ''.'' \<and> indexOf dirs dir = idx
      then dir # unique_from dirs (idx + 1) rest
      else unique_from dirs (idx + 1) rest)"

fun make_dirs ::
  "world \<Rightarrow> event list \<Rightarrow> jstring \<Rightarrow> jstring list \<Rightarrow> (js_error + unit) \<times> event list" where
  "make_dirs w log dest [] = (Inr (), log)"
| "make_dirs w log dest (dir # rest) =
     (let dir' = join [path_sep w] (split 0x2F dir);
          fullpath = path_join w dest dir'
      in if \<not> existsSync w log fullpath then
           (case mkdirSync w log fullpath of
              Some ex \<Rightarrow> (Inl ex, log @ [MkdirSync fullpath])
            | None \<Rightarrow> make_dirs w (log @ [MkdirSync fullpath]) dest rest)
         else make_dirs w log dest rest)"

definition createSubdirectories ::
  "world \<Rightarrow> event list \<Rightarrow> framework_file list \<Rightarrow> jstring \<Rightarrow> (js_error + unit) \<times> event list" where
  "createSubdirectories w log files dest =
     (let dirs = map (\<lambda>file. path_dirname w (filepath file)) files;
          uniqueDirs = unique_from dirs 0 dirs
      in make_dirs w log dest uniqueDirs)"

text \<open>
  \<open>fetchAndSaveAsync_\<close>: the outcome of the promise it returns, and the log extended by
  what the operation does until it settles.
\<close>

definition save_end :: "world \<Rightarrow> event list \<Rightarrow> jstring \<Rightarrow> (js_error + unit) \<times> event list" where
  "save_end w log fullpath =
     (case stream_end w log fullpath of
        None \<Rightarrow> (Inr (), log)
      | Some ex \<Rightarrow> (Inl ex, log))"

definition fetchAndSaveAsync ::
  "world \<Rightarrow> event list \<Rightarrow> framework_file \<Rightarrow> jstring \<Rightarrow> (js_error + unit) \<times> event list" where
  "fetchAndSaveAsync w log file dest =
     (let fullpath = path_join w dest (filepath file);
          log1 = log @ [Fetch (file_url file) (Some the_fetchOptions)]
      in case fetch w log (file_url file) (Some the_fetchOptions) of
           Inl ex \<Rightarrow> (Inl ex, log1)
         | Inr res \<Rightarrow>
             if \<not> ok res then (Inl (Error (js ''Failed to fetch '' @ file_url file)), log1)
             else
               (let log2 = log1 @ [CreateWriteStream fullpath]
                in if test_amp_geo (filepath file) then
                     (case res_text res of
                        Inl ex \<Rightarrow> (Inl ex, log2)
                      | Inr t \<Rightarrow> save_end w (log2 @ [Write fullpath (hotpatch t)]) fullpath)
                   else save_end w (log2 @ [Pipe fullpath (res_body res)]) fullpath))"

text \<open>
  \<open>files.map((file) => this.fetchAndSaveAsync_(file, dest))\<close>. The operations run
  concurrently; the log groups the events of each entry, in the order of dispatch.
\<close>

fun fetchAndSaveAll ::
  "world \<Rightarrow> event list \<Rightarrow> jstring \<Rightarrow> framework_file list \<Rightarrow> (js_error + unit) list \<times> event list" where
  "fetchAndSaveAll w log dest [] = ([], log)"
| "fetchAndSaveAll w log dest (file # files) =
     (let (r, log1) = fetchAndSaveAsync w log file dest;
          (rs, log2) = fetchAndSaveAll w log1 dest files
      in (r # rs, log2))"

subsection \<open>getFramework\<close>

text \<open>
  The body of \<open>getFramework\<close> is cut at its comments into steps; each step ends the run
  with a result or an exception, or goes on to the next step. From the last step to
  the first:
\<close>

text \<open>Lines 183 to 202: fetch all files and wait for all downloads to finish.\<close>

definition downloadFiles :: "world \<Rightarrow> result \<Rightarrow> jstring \<Rightarrow> framework_file list \<Rightarrow> event list \<Rightarrow> run" where
  "downloadFiles w ret dest files log =
     (let (outcomes, log') = fetchAndSaveAll w log dest files
      in case Promise_all (settled_at w log') outcomes of
           Inr vs \<Rightarrow> (Inr (ret\<lparr>status := True\<rparr>), log')
         | Inl err \<Rightarrow>
             (Inr (ret\<lparr>error := js ''Failed to download AMP framework'' @ [LF] @ message err\<rparr>),
              log'))"

text \<open>Lines 180 and 181: create all subdirectories.\<close>

definition createAndDownload :: "world \<Rightarrow> result \<Rightarrow> jstring \<Rightarrow> framework_file list \<Rightarrow> event list \<Rightarrow> run" where
  "createAndDownload w ret dest files log =
     (case createSubdirectories w log files dest of
        (Inl ex, log') \<Rightarrow> (Inl ex, log')
      | (Inr u, log') \<Rightarrow> downloadFiles w ret dest files log')"

text \<open>Lines 172 to 178: set the file count, clear the destination unless disabled.\<close>

definition prepareDestination ::
  "world \<Rightarrow> options \<Rightarrow> result \<Rightarrow> jstring \<Rightarrow> framework_file list \<Rightarrow> event list \<Rightarrow> run" where
  "prepareDestination w opts ret dest files log =
     (let ret' = ret\<lparr>count := length files\<rparr>
      in if opt_clear opts \<noteq> Some False then
           (case clearDirectory w log dest of
              (Inl ex, log') \<Rightarrow> (Inl ex, log')
            | (Inr us, log') \<Rightarrow> createAndDownload w ret' dest files log')
         else createAndDownload w ret' dest files log)"

text \<open>Lines 134 to 170: construct the URLs, fetch the files listing and check it.\<close>

definition frameworkBaseUrl :: "jstring \<Rightarrow> jstring \<Rightarrow> jstring" where
  "frameworkBaseUrl prefix v =
     prefix @ (if endsWith prefix (js ''/'') then [] else js ''/'') @ js ''rtv/'' @ v @ js ''/''"

definition parse_listing :: "jstring \<Rightarrow> jstring \<Rightarrow> framework_file list" where
  "parse_listing base t =
     map (\<lambda>p. \<lparr>filepath = p, file_url = base @ p\<rparr>) (filter (\<lambda>p. p \<noteq> []) (split_lines t))"

definition listing_error :: "jstring \<Rightarrow> jstring" where
  "listing_error msg = js ''Unable to read AMP framework files listing'' @ [LF] @ msg"

definition fetchFilesListing ::
  "world \<Rightarrow> options \<Rightarrow> result \<Rightarrow> jstring \<Rightarrow> jstring \<Rightarrow> jstring \<Rightarrow> event list \<Rightarrow> run" where
  "fetchFilesListing w opts ret dest v prefix log =
     (let base = frameworkBaseUrl prefix v;
          filesTxtUrl = base @ FRAMEWORK_FILES_TXT;
          ret' = ret\<lparr>url := base\<rparr>;
          log' = log @ [Fetch filesTxtUrl None]
      in case fetch w log filesTxtUrl None of
           Inl ex \<Rightarrow> (Inr (ret'\<lparr>error := listing_error (message ex)\<rparr>), log')
         | Inr res \<Rightarrow>
             if \<not> ok res then
               (Inr (ret'\<lparr>error :=
                  js ''Unable to fetch AMP framework files listing: '' @ filesTxtUrl\<rparr>), log')
             else
               (case res_text res of
                  Inl ex \<Rightarrow> (Inr (ret'\<lparr>error := listing_error (message ex)\<rparr>), log')
                | Inr t \<Rightarrow>
                    (let files = parse_listing base t
                     in if \<not> list_ex (\<lambda>file. filepath file = FRAMEWORK_FILES_TXT) files then
                          (Inr (ret'\<lparr>error := listing_error
                             (js ''Expected '' @ FRAMEWORK_FILES_TXT
                              @ js '' in file listing, but it was not found.'')\<rparr>), log')
                        else prepareDestination w opts ret' dest files log')))"

text \<open>Lines 118 to 132: the AMP framework cache.\<close>

definition googleAmpCache ::
  "world \<Rightarrow> options \<Rightarrow> result \<Rightarrow> jstring \<Rightarrow> jstring \<Rightarrow> event list \<Rightarrow> run" where
  "googleAmpCache w opts ret dest v log =
     (case Caches_get w log (js ''google'') of
        None \<Rightarrow> (Inr (ret\<lparr>error := js ''Could not determine AMP cache domain''\<rparr>),
                  log @ [CachesGet (js ''google'')])
      | Some c \<Rightarrow>
          fetchFilesListing w opts ret dest v (js ''https://'' @ cacheDomain c)
            (log @ [CachesGet (js ''google'')]))"

definition resolveAmpUrlPrefix ::
  "world \<Rightarrow> options \<Rightarrow> result \<Rightarrow> jstring \<Rightarrow> jstring \<Rightarrow> event list \<Rightarrow> run" where
  "resolveAmpUrlPrefix w opts ret dest v log =
     (case opt_ampUrlPrefix opts of
        None \<Rightarrow> googleAmpCache w opts ret dest v log
      | Some prefix \<Rightarrow>
          if prefix = [] then googleAmpCache w opts ret dest v log
          else if \<not> isAbsoluteUrl w prefix then
            (Inr (ret\<lparr>error := js ''ampUrlPrefix must be an absolute URL''\<rparr>), log)
          else fetchFilesListing w opts ret dest v prefix log)"

text \<open>Lines 100 to 116: the runtime version.\<close>

definition discoverRtv :: "world \<Rightarrow> options \<Rightarrow> result \<Rightarrow> jstring \<Rightarrow> event list \<Rightarrow> run" where
  "discoverRtv w opts ret dest log =
     (let found = currentVersion w log (opt_ampUrlPrefix opts);
          log' = log @ [CurrentVersion (opt_ampUrlPrefix opts)]
      in case found of
           None \<Rightarrow>
             (Inr (ret\<lparr>error := js ''Could not determine runtime version to download''\<rparr>), log')
         | Some v \<Rightarrow>
             if v = [] then
               (Inr (ret\<lparr>error := js ''Could not determine runtime version to download''\<rparr>),
                log')
             else resolveAmpUrlPrefix w opts (ret\<lparr>ret_rtv := v\<rparr>) dest v log')"

definition resolveRtv :: "world \<Rightarrow> options \<Rightarrow> result \<Rightarrow> jstring \<Rightarrow> event list \<Rightarrow> run" where
  "resolveRtv w opts ret dest log =
     (case opt_rtv opts of
        None \<Rightarrow> discoverRtv w opts ret dest log
      | Some v \<Rightarrow>
          if v = [] then discoverRtv w opts ret dest log
          else (case encodeURIComponent v of
                  Inl ex \<Rightarrow> (Inl ex, log)
                | Inr encoded \<Rightarrow>
                    if v \<noteq> encoded then
                      (Inr (ret\<lparr>error := js ''Invalid runtime version specified: '' @ v\<rparr>), log)
                    else resolveAmpUrlPrefix w opts (ret\<lparr>ret_rtv := v\<rparr>) dest v log))"

text \<open>Lines 91 to 98: the destination directory.\<close>

definition verifyDestination ::
  "world \<Rightarrow> options \<Rightarrow> result \<Rightarrow> jstring option \<Rightarrow> event list \<Rightarrow> run" where
  "verifyDestination w opts ret d log =
     (case assertDirectoryWritable w log d of
        (Inl ex, log') \<Rightarrow> (Inr (ret\<lparr>error := message ex\<rparr>), log')
      | (Inr p, log') \<Rightarrow> resolveRtv w opts ret p log')"

text \<open>
  Lines 68 to 89. Reading \<open>dest.split\<close> of an undefined \<open>dest\<close> throws a TypeError.
\<close>

definition undefined_split :: js_error where
  "undefined_split = TypeError (js ''Cannot read property 'split' of undefined'')"

definition first_segment_is_tilde :: "world \<Rightarrow> jstring \<Rightarrow> bool" where
  "first_segment_is_tilde w d =
     (case split (path_sep w) d of [] \<Rightarrow> False | seg # segs \<Rightarrow> seg = js ''~'')"

definition getFramework :: "world \<Rightarrow> options \<Rightarrow> run" where
  "getFramework w opts =
     (let ret = \<lparr>status = False, error = [], count = 0, url = [],
                 ret_dest = opt_dest opts, ret_rtv = []\<rparr>
      in if os_type w \<noteq> js ''Windows_NT'' then
           (case opt_dest opts of
              None \<Rightarrow> (Inl undefined_split, [])
            | Some d \<Rightarrow>
                if first_segment_is_tilde w d then
                  (let d' = replace (literal (js ''~'')) (os_homedir w) d
                   in verifyDestination w opts (ret\<lparr>ret_dest := Some d'\<rparr>) (Some d') [])
                else verifyDestination w opts ret (Some d) [])
         else verifyDestination w opts ret (opt_dest opts) [])"

section \<open>Notions used to state the properties\<close>









text \<open>Every carriage return directly followed by a line feed is dropped.\<close>

fun crlf_to_lf :: "jstring \<Rightarrow> jstring" where
  "crlf_to_lf [] = []"
| "crlf_to_lf [c] = [c]"
| "crlf_to_lf (c # d # cs) =
     (if c = CR \<and> d = LF then LF # crlf_to_lf cs else c # crlf_to_lf (d # cs))"

text \<open>
  At position \<open>i\<close> of \<open>t\<close> stand two ASCII letters, of either case, followed by 26
  spaces.
\<close>

definition letters_spaces_at :: "jstring \<Rightarrow> nat \<Rightarrow> bool" where
  "letters_spaces_at t i =
     (i + 28 \<le> length t \<and> ascii_letter (t ! i) \<and> ascii_letter (t ! (i + 1))
      \<and> (\<forall>k \<in> {2 ..< 28}. t ! (i + k) = 0x20))"

definition lowercase :: "jchar \<Rightarrow> bool" where
  "lowercase c = (0x61 \<le> unat c \<and> unat c \<le> 0x7A)"








section \<open>Example environments\<close>

text \<open>
  A POSIX-like environment used to run the model on concrete inputs. A site is a table
  from URLs to response bodies (ASCII text); a URL outside the table is answered with a response that
  is not \<open>ok\<close>. The destination \<open>/out\<close> exists and holds a file \<open>old.js\<close> and a
  directory \<open>v0\<close>; operations settle in the order of dispatch.
\<close>

definition example_join :: "jstring \<Rightarrow> jstring \<Rightarrow> jstring" where
  "example_join a b = a @ js ''/'' @ b"

definition example_dirname :: "jstring \<Rightarrow> jstring" where
  "example_dirname p =
     (if 0x2F \<in> set p then rev (tl (dropWhile (\<lambda>c. c \<noteq> 0x2F) (rev p))) else js ''.'')"

definition bytes :: "string \<Rightarrow> 8 word list" where
  "bytes = map of_char"

fun serve :: "(string \<times> string) list \<Rightarrow> jstring \<Rightarrow> js_error + response" where
  "serve [] u = Inr \<lparr>ok = False, res_text = Inr [], res_body = []\<rparr>"
| "serve ((k, t) # site) u =
     (if u = js k then Inr \<lparr>ok = True, res_text = Inr (js t), res_body = bytes t\<rparr>
      else serve site u)"

definition example_world :: "(string \<times> string) list \<Rightarrow> world" where
  "example_world site =
     \<lparr>os_type = js ''Linux'', path_sep = 0x2F, os_homedir = js ''/home/amp'',
      path_join = example_join, path_dirname = example_dirname,
      new_URL = (\<lambda>u. startsWith u (js ''https://'')),
      existsSync = (\<lambda>log p. p = js ''/out'' \<or> MkdirSync p \<in> set log),
      lstat_isDirectory = (\<lambda>log p. Inr True),
      mkdirSync = (\<lambda>log p. None),
      accessSync = (\<lambda>log p. None),
      currentVersion = (\<lambda>log prefix. None),
      Caches_get = (\<lambda>log n. Some \<lparr>cacheDomain = js ''cdn.ampproject.org''\<rparr>),
      fetch = (\<lambda>log u fo. serve site u),
      readdir = (\<lambda>log p. Inr [\<lparr>name = js ''old.js'', isDirectory = False\<rparr>,
                               \<lparr>name = js ''v0'', isDirectory = True\<rparr>]),
      rmdir = (\<lambda>log p. None),
      unlink = (\<lambda>log p. None),
      stream_end = (\<lambda>log p. None),
      settled_at = (\<lambda>log i. i)\<rparr>"

definition example_options :: options where
  "example_options =
     \<lparr>opt_clear = None, opt_ampUrlPrefix = Some (js ''https://example.com''),
      opt_dest = Some (js ''/out''), opt_rtv = Some (js ''15'')\<rparr>"

definition example_ret :: result where
  "example_ret = \<lparr>status = False, error = [], count = 0, url = [],
                  ret_dest = Some (js ''/out''), ret_rtv = js ''15''\<rparr>"

text \<open>A bundle of two files, the second of which the origin does not have.\<close>

definition incomplete_site :: "(string \<times> string) list" where
  "incomplete_site =
     [(''https://example.com/rtv/15/files.txt'',
       ''files.txt'' @ [CHR 0x0A] @ ''v0.js'' @ [CHR 0x0A])]"

definition incomplete_files :: "framework_file list" where
  "incomplete_files =
     [\<lparr>filepath = js ''files.txt'', file_url = js ''https://example.com/rtv/15/files.txt''\<rparr>,
      \<lparr>filepath = js ''v0.js'', file_url = js ''https://example.com/rtv/15/v0.js''\<rparr>]"

text \<open>A listing that does not list itself.\<close>

definition unlisted_text :: string where
  "unlisted_text = ''a.js'' @ [CHR 0x0A] @ ''b.css'' @ [CHR 0x0A]"

definition unlisted_site :: "(string \<times> string) list" where
  "unlisted_site = [(''https://example.com/rtv/15/files.txt'', unlisted_text)]"

text \<open>
  A complete bundle: the listing, with both line break conventions, and the
  geolocation script with a country code.
\<close>

definition complete_text :: string where
  "complete_text = ''files.txt'' @ [CHR 0x0D, CHR 0x0A] @ ''v0/amp-geo-0.1.js'' @ [CHR 0x0A]"

definition geo_text :: string where
  "geo_text = ''x=us                          ;rest''"

definition complete_site :: "(string \<times> string) list" where
  "complete_site =
     [(''https://example.com/rtv/15/files.txt'', complete_text),
      (''https://example.com/rtv/15/v0/amp-geo-0.1.js'', geo_text)]"

definition geo_file :: framework_file where
  "geo_file = \<lparr>filepath = js ''v0/amp-geo-0.1.js'',
               file_url = js ''https://example.com/rtv/15/v0/amp-geo-0.1.js''\<rparr>"

text \<open>The geolocation script with the country code in capitals.\<close>

definition capitals_text :: string where
  "capitals_text = ''US                          ''"

definition capitals_site :: "(string \<times> string) list" where
  "capitals_site = [(''https://example.com/rtv/15/v0/amp-geo-0.1.js'', capitals_text)]"

text \<open>
  The call \<open>getFramework()\<close>, or \<open>getFramework({})\<close>; and environments in which
  removing a directory, or creating one, is denied.
\<close>

definition no_options :: options where
  "no_options = \<lparr>opt_clear = None, opt_ampUrlPrefix = None, opt_dest = None, opt_rtv = None\<rparr>"

definition denied :: js_error where
  "denied = Error (js ''EACCES: permission denied'')"

definition locked_world :: "(string \<times> string) list \<Rightarrow> world" where
  "locked_world site = (example_world site)\<lparr>rmdir := (\<lambda>log p. Some denied)\<rparr>"

definition readonly_world :: "(string \<times> string) list \<Rightarrow> world" where
  "readonly_world site = (example_world site)\<lparr>mkdirSync := (\<lambda>log p. Some denied)\<rparr>"

section \<open>Basic facts\<close>

subsection \<open>Unfolding on concrete inputs\<close>




subsection \<open>Promise.all\<close>

lemma rejections_mem:
  "(i, e) \<in> set (rejections k rs) \<longleftrightarrow> k \<le> i \<and> i - k < length rs \<and> rs ! (i - k) = Inl e"
proof (induction k rs rule: rejections.induct)
  case (1 i)
  then show ?case by simp
next
  case (2 k e' rs)
  show ?case
  proof (cases "i = k")
    case True
    then show ?thesis using 2 by auto
  next
    case False
    then show ?thesis using 2 by (auto simp: nth_Cons' Suc_diff_le)
  qed
next
  case (3 k v rs)
  show ?case
  proof (cases "i = k")
    case True
    then show ?thesis using 3 by auto
  next
    case False
    then show ?thesis using 3 by (auto simp: nth_Cons' Suc_diff_le)
  qed
qed

lemma rejections_empty:
  "rejections k rs = [] \<longleftrightarrow> (\<forall>r \<in> set rs. \<not> isl r)"
  by (induction k rs rule: rejections.induct) auto

lemma earliest_None: "earliest t xs = None \<longleftrightarrow> xs = []"
  by (induction xs) (auto split: option.splits)

lemma earliest_Some:
  "earliest t xs = Some x \<Longrightarrow> x \<in> set xs \<and> (\<forall>y \<in> set xs. t (fst x) \<le> t (fst y))"
proof (induction xs arbitrary: x)
  case Nil
  then show ?case by simp
next
  case (Cons a xs)
  show ?case
  proof (cases "earliest t xs")
    case None
    then have "xs = []" by (simp add: earliest_None)
    with Cons.prems show ?thesis by simp
  next
    case (Some y)
    from Cons.IH [OF Some] have y: "y \<in> set xs" "\<forall>z \<in> set xs. t (fst y) \<le> t (fst z)"
      by auto
    show ?thesis
    proof (cases "t (fst a) \<le> t (fst y)")
      case True
      with Some Cons.prems have "x = a" by simp
      with True y show ?thesis by (auto intro: order_trans)
    next
      case False
      with Some Cons.prems have "x = y" by simp
      with False y show ?thesis by auto
    qed
  qed
qed

lemma Promise_all_Inr:
  "(\<exists>vs. Promise_all t rs = Inr vs) \<longleftrightarrow> (\<forall>r \<in> set rs. \<not> isl r)"
proof (cases "earliest t (rejections 0 rs)")
  case None
  then have "\<forall>r \<in> set rs. \<not> isl r"
    by (simp add: earliest_None rejections_empty)
  with None show ?thesis by (simp add: Promise_all_def)
next
  case (Some x)
  then have "rejections 0 rs \<noteq> []" by (auto simp: earliest_None [symmetric])
  then have "\<not> (\<forall>r \<in> set rs. \<not> isl r)" by (simp add: rejections_empty)
  with Some show ?thesis by (auto simp: Promise_all_def split: prod.splits)
qed

lemma Promise_all_Inl:
  assumes "Promise_all t rs = Inl e"
  shows "\<exists>i < length rs. rs ! i = Inl e \<and> (\<forall>j < length rs. isl (rs ! j) \<longrightarrow> t i \<le> t j)"
proof -
  from assms obtain i where ie: "earliest t (rejections 0 rs) = Some (i, e)"
    by (auto simp: Promise_all_def split: option.splits)
  from earliest_Some [OF ie]
  have mem: "(i, e) \<in> set (rejections 0 rs)"
    and least: "\<forall>y \<in> set (rejections 0 rs). t i \<le> t (fst y)" by auto
  from mem have i: "i < length rs" "rs ! i = Inl e" by (simp_all add: rejections_mem)
  have "t i \<le> t j" if "j < length rs" "isl (rs ! j)" for j
  proof -
    from that obtain e' where "rs ! j = Inl e'" by (cases "rs ! j") auto
    with that have "(j, e') \<in> set (rejections 0 rs)" by (simp add: rejections_mem)
    with least show ?thesis by fastforce
  qed
  with i show ?thesis by blast
qed


subsection \<open>Clearing the destination\<close>





subsection \<open>Creating subdirectories\<close>



subsection \<open>Fetching and saving\<close>

lemma save_end_log: "snd (save_end w log p) = log"
  by (simp add: save_end_def split: option.splits)



lemma fetchAndSaveAll_length:
  "length (fst (fetchAndSaveAll w log dest files)) = length files"
  by (induction files arbitrary: log) (simp_all add: split_beta)




subsection \<open>The last steps of getFramework\<close>

lemma downloadFiles_log:
  "snd (downloadFiles w ret dest files log) = snd (fetchAndSaveAll w log dest files)"
  by (simp add: downloadFiles_def split_beta split: sum.splits)

lemma downloadFiles_ok:
  assumes "\<forall>x \<in> set (fst (fetchAndSaveAll w log dest files)). \<not> isl x"
  shows "fst (downloadFiles w ret dest files log) = Inr (ret\<lparr>status := True\<rparr>)"
proof -
  from assms obtain vs where
    "Promise_all (settled_at w (snd (fetchAndSaveAll w log dest files)))
       (fst (fetchAndSaveAll w log dest files)) = Inr vs"
    using Promise_all_Inr by blast
  then show ?thesis by (simp add: downloadFiles_def split_beta)
qed

lemma downloadFiles_fail:
  assumes "\<exists>x \<in> set (fst (fetchAndSaveAll w log dest files)). isl x"
  shows "\<exists>e. Promise_all (settled_at w (snd (fetchAndSaveAll w log dest files)))
                (fst (fetchAndSaveAll w log dest files)) = Inl e
           \<and> fst (downloadFiles w ret dest files log)
               = Inr (ret\<lparr>error := js ''Failed to download AMP framework'' @ [LF] @ message e\<rparr>)"
proof (cases "Promise_all (settled_at w (snd (fetchAndSaveAll w log dest files)))
                (fst (fetchAndSaveAll w log dest files))")
  case (Inl e)
  then show ?thesis by (simp add: downloadFiles_def split_beta)
next
  case (Inr vs)
  with assms show ?thesis using Promise_all_Inr by blast
qed


lemma createAndDownload_cases:
  assumes "createAndDownload w ret dest files log = (x, log')"
  shows "(\<exists>ex. x = Inl ex \<and> createSubdirectories w log files dest = (Inl ex, log'))
       \<or> (\<exists>log1. createSubdirectories w log files dest = (Inr (), log1)
            \<and> downloadFiles w ret dest files log1 = (x, log'))"
  using assms by (auto simp: createAndDownload_def split: prod.splits sum.splits)

lemma prepareDestination_cases:
  assumes "prepareDestination w opts ret dest files log = (x, log')"
  shows "(opt_clear opts \<noteq> Some False
            \<and> (\<exists>ex. x = Inl ex \<and> clearDirectory w log dest = (Inl ex, log')))
       \<or> (\<exists>log1. (if opt_clear opts \<noteq> Some False
                    then \<exists>us. clearDirectory w log dest = (Inr us, log1) else log1 = log)
            \<and> createAndDownload w (ret\<lparr>count := length files\<rparr>) dest files log1 = (x, log'))"
  using assms
  by (auto simp: prepareDestination_def Let_def split: prod.splits sum.splits if_splits)

lemma prepareDestination_returns:
  assumes "prepareDestination w opts ret dest files log = (Inr r, log')"
  shows "\<exists>log5. downloadFiles w (ret\<lparr>count := length files\<rparr>) dest files log5 = (Inr r, log')"
proof -
  from prepareDestination_cases [OF assms] obtain log1 where
    "createAndDownload w (ret\<lparr>count := length files\<rparr>) dest files log1 = (Inr r, log')"
    by auto
  from createAndDownload_cases [OF this] show ?thesis by auto
qed

subsection \<open>Strings\<close>

lemma js_append: "js (a @ b) = js a @ js b"
  by (simp add: js_def)



lemma split_lines_spec: "split_lines t = split LF (crlf_to_lf t)"
  by (induction t rule: split_lines.induct) (auto simp: CR_def LF_def)

subsection \<open>encodeURIComponent\<close>






subsection \<open>The country pattern and its replacement\<close>

lemma country_at_nth:
  "country_at s \<longleftrightarrow>
     28 \<le> length s \<and> ascii_letter (s ! 0) \<and> ascii_letter (s ! 1)
     \<and> (\<forall>k \<in> {2 ..< 28}. s ! k = 0x20)"
proof (cases s)
  case Nil
  then show ?thesis by (simp add: country_at_def)
next
  case (Cons a s')
  show ?thesis
  proof (cases s')
    case Nil
    with Cons show ?thesis by (simp add: country_at_def)
  next
    case (Cons b rest)
    have "(26 \<le> length rest \<and> list_all (\<lambda>c. c = 0x20) (take 26 rest))
        \<longleftrightarrow> (26 \<le> length rest \<and> (\<forall>k \<in> {2 ..< 28}. (a # b # rest) ! k = 0x20))"
    proof (cases "26 \<le> length rest")
      case False
      then show ?thesis by simp
    next
      case True
      have "list_all (\<lambda>c. c = 0x20) (take 26 rest) \<longleftrightarrow> (\<forall>j < 26. rest ! j = 0x20)"
        using True by (simp add: list_all_length)
      also have "\<dots> \<longleftrightarrow> (\<forall>k \<in> {2 ..< 28}. (a # b # rest) ! k = 0x20)"
      proof
        assume h: "\<forall>j < 26. rest ! j = 0x20"
        show "\<forall>k \<in> {2 ..< 28}. (a # b # rest) ! k = 0x20"
        proof
          fix k :: nat assume "k \<in> {2 ..< 28}"
          then have "k = Suc (Suc (k - 2))" "k - 2 < 26" by auto
          with h show "(a # b # rest) ! k = 0x20" by (metis nth_Cons_Suc)
        qed
      next
        assume h: "\<forall>k \<in> {2 ..< 28}. (a # b # rest) ! k = 0x20"
        show "\<forall>j < 26. rest ! j = 0x20"
        proof (intro allI impI)
          fix j :: nat assume "j < 26"
          then have "Suc (Suc j) \<in> {2 ..< 28}" by simp
          with h have "(a # b # rest) ! Suc (Suc j) = 0x20" by blast
          then show "rest ! j = 0x20" by simp
        qed
      qed
      finally show ?thesis using True by simp
    qed
    with \<open>s = a # s'\<close> Cons show ?thesis by (auto simp: country_at_def)
  qed
qed


lemma country_at_drop:
  "i \<le> length t \<Longrightarrow> country_at (drop i t) \<longleftrightarrow> letters_spaces_at t i"
  unfolding country_at_nth letters_spaces_at_def
  by (cases "i + 28 \<le> length t") auto

lemma letters_spaces_at_bound: "letters_spaces_at t i \<Longrightarrow> i \<le> length t"
  by (simp add: letters_spaces_at_def)

lemma getSubstitution_plain:
  "0x24 \<notin> set repl \<Longrightarrow> getSubstitution m p q repl = repl"
  by (induction m p q repl rule: getSubstitution.induct) auto

lemma replace_from_none:
  "(\<forall>j \<le> length s. matcher (drop j s) = None) \<Longrightarrow> replace_from matcher repl pre s = pre @ s"
proof (induction s arbitrary: pre)
  case Nil
  then show ?case by simp
next
  case (Cons c cs)
  from Cons.prems have here: "matcher (c # cs) = None" by (metis drop0 le0)
  have "\<forall>j \<le> length cs. matcher (drop j cs) = None"
  proof (intro allI impI)
    fix j assume "j \<le> length cs"
    with Cons.prems have "matcher (drop (Suc j) (c # cs)) = None" by (metis Suc_le_mono length_Cons)
    then show "matcher (drop j cs) = None" by simp
  qed
  from Cons.IH [OF this] here show ?case by simp
qed

lemma replace_from_first:
  assumes "i \<le> length s" and "matcher (drop i s) = Some n"
    and "\<forall>j < i. matcher (drop j s) = None"
  shows "replace_from matcher repl pre s =
     pre @ take i s
     @ getSubstitution (take n (drop i s)) (pre @ take i s) (drop n (drop i s)) repl
     @ drop n (drop i s)"
  using assms
proof (induction s arbitrary: pre i)
  case Nil
  then show ?case by simp
next
  case (Cons c cs)
  show ?case
  proof (cases i)
    case 0
    with Cons.prems show ?thesis by simp
  next
    case (Suc k)
    with Cons.prems have here: "matcher (c # cs) = None" by (metis drop0 zero_less_Suc)
    have k: "k \<le> length cs" "matcher (drop k cs) = Some n"
      using Cons.prems Suc by simp_all
    have "\<forall>j < k. matcher (drop j cs) = None"
    proof (intro allI impI)
      fix j assume "j < k"
      with Cons.prems(3) Suc have "matcher (drop (Suc j) (c # cs)) = None"
        by (metis Suc_less_eq)
      then show "matcher (drop j cs) = None" by simp
    qed
    from Cons.IH [OF k this, of "pre @ [c]"] here Suc show ?thesis by simp
  qed
qed

lemma HOTPATCH_plain: "0x24 \<notin> set HOTPATCH"
  by (simp add: HOTPATCH_def js_def)

lemma hotpatch_none:
  assumes "\<forall>i. \<not> letters_spaces_at t i"
  shows "hotpatch t = t"
proof -
  have "\<forall>j \<le> length t. country_pattern (drop j t) = None"
    using assms by (simp add: country_pattern_def country_at_drop)
  from replace_from_none [OF this] show ?thesis by (simp add: hotpatch_def replace_def)
qed

lemma hotpatch_first:
  assumes "letters_spaces_at t i" and "\<forall>j < i. \<not> letters_spaces_at t j"
  shows "hotpatch t = take i t @ HOTPATCH @ drop (i + 28) t"
proof -
  have i: "i \<le> length t" using assms(1) by (rule letters_spaces_at_bound)
  have m: "country_pattern (drop i t) = Some 28"
    using assms(1) i by (simp add: country_pattern_def country_at_drop)
  have "\<forall>j < i. country_pattern (drop j t) = None"
    using assms(2) i by (simp add: country_pattern_def country_at_drop)
  from replace_from_first [OF i m this, of HOTPATCH "[]"] show ?thesis
    by (simp add: hotpatch_def replace_def getSubstitution_plain [OF HOTPATCH_plain] add.commute)
qed

lemma test_amp_geo_append: "amp_geo_at s \<Longrightarrow> test_amp_geo (pre @ s)"
proof (induction pre)
  case Nil
  then show ?case by (cases s) simp_all
next
  case (Cons c pre)
  then show ?case by simp
qed

lemma takeWhile_append_all:
  "list_all P ds \<Longrightarrow> length ds \<le> length (takeWhile P (ds @ r))"
  by (induction ds) auto

lemma amp_geo_versioned:
  assumes "ds \<noteq> []" and "list_all digit_or_dot ds" and "ext = js ''.js'' \<or> ext = js ''.mjs''"
  shows "test_amp_geo (pre @ js ''amp-geo-'' @ ds @ ext @ post)"
proof -
  let ?t = "ds @ ext @ post"
  have e: "extension_at (drop (length ds) ?t)"
    using assms(3) by (auto simp: extension_at_def startsWith_def)
  obtain k where "length ds = Suc k" using assms(1) by (cases ds) auto
  then have "length ds \<in> set [1 ..< Suc (length (takeWhile digit_or_dot ?t))]"
    using takeWhile_append_all [OF assms(2), of "ext @ post"] by auto
  with e have "list_ex (\<lambda>n. extension_at (drop n ?t))
      [1 ..< Suc (length (takeWhile digit_or_dot ?t))]"
    unfolding list_ex_iff by blast
  moreover have "startsWith (js ''amp-geo-'' @ ?t) (js ''amp-geo-'')"
    by (simp add: startsWith_def)
  moreover have "drop 8 (js ''amp-geo-'' @ ?t) = ?t" by (simp add: js_def)
  ultimately have "amp_geo_at (js ''amp-geo-'' @ ?t)" by (simp add: amp_geo_at_def Let_def)
  from test_amp_geo_append [OF this] show ?thesis by simp
qed

lemma amp_geo_latest:
  assumes "ext = js ''.js'' \<or> ext = js ''.mjs''"
  shows "test_amp_geo (pre @ js ''amp-geo-latest'' @ ext @ post)"
proof -
  have "amp_geo_at (js ''amp-geo-latest'' @ ext @ post)"
    using assms by (auto simp: amp_geo_at_def Let_def startsWith_def extension_at_def js_def)
  from test_amp_geo_append [OF this] show ?thesis by simp
qed


subsection \<open>The files listing\<close>

lemma downloadFiles_frame:
  assumes "downloadFiles w ret dest files log = (x, log')"
  shows "\<exists>r. x = Inr r \<and> count r = count ret \<and> url r = url ret
           \<and> ret_dest r = ret_dest ret \<and> ret_rtv r = ret_rtv ret"
  using assms by (auto simp: downloadFiles_def split_beta split: sum.splits)

lemma prepareDestination_frame:
  assumes "prepareDestination w opts ret dest files log = (Inr r, log')"
  shows "count r = length files \<and> url r = url ret
           \<and> ret_dest r = ret_dest ret \<and> ret_rtv r = ret_rtv ret"
proof -
  from prepareDestination_returns [OF assms] obtain log5 where
    "downloadFiles w (ret\<lparr>count := length files\<rparr>) dest files log5 = (Inr r, log')" by blast
  from downloadFiles_frame [OF this] show ?thesis by simp
qed



lemma parse_listing_paths:
  "map filepath (parse_listing base t) = filter (\<lambda>p. p \<noteq> []) (split_lines t)"
  by (simp add: parse_listing_def comp_def)

lemma listed_iff:
  "list_ex (\<lambda>file. filepath file = FRAMEWORK_FILES_TXT) (parse_listing base t)
     \<longleftrightarrow> FRAMEWORK_FILES_TXT \<in> set (split_lines t)"
proof -
  have "FRAMEWORK_FILES_TXT \<noteq> []" by (simp add: FRAMEWORK_FILES_TXT_def js_def)
  then have "FRAMEWORK_FILES_TXT \<in> set (split_lines t)
      \<longleftrightarrow> FRAMEWORK_FILES_TXT \<in> set (map filepath (parse_listing base t))"
    unfolding parse_listing_paths by auto
  also have "\<dots> \<longleftrightarrow> (\<exists>file \<in> set (parse_listing base t). filepath file = FRAMEWORK_FILES_TXT)"
    by (simp add: image_iff) metis
  finally show ?thesis by (simp add: list_ex_iff)
qed

subsection \<open>The steps of getFramework, case by case\<close>










subsection \<open>The results a run can return\<close>







subsection \<open>Runs that succeed\<close>










subsection \<open>What the last steps do to the destination\<close>















section \<open>Exceptions that leave getFramework\<close>

text \<open>
  Claim C1 does not hold of the code. An empty destination is reported in the result,
  as claimed. But on a platform other than Windows an undefined destination makes
  \<open>dest.split\<close> throw before the destination is checked; and a failure while
  clearing the destination or creating a subdirectory is not caught. In these runs the
  promise of \<open>getFramework\<close> is rejected and no result is returned.
\<close>

theorem exceptions_escape:
  "fst (getFramework (example_world complete_site) (example_options\<lparr>opt_dest := Some []\<rparr>))
     = Inr \<lparr>status = False, error = js ''Directory not specified'', count = 0, url = [],
            ret_dest = Some [], ret_rtv = []\<rparr>
   \<and> getFramework (example_world complete_site) no_options
     = (Inl (TypeError (js ''Cannot read property 'split' of undefined'')), [])
   \<and> fst (getFramework (locked_world complete_site) example_options)
     = Inl (Error (js ''EACCES: permission denied''))
   \<and> fst (getFramework (readonly_world complete_site)
            (example_options\<lparr>opt_clear := Some False\<rparr>))
     = Inl (Error (js ''EACCES: permission denied''))"
  by code_simp

section \<open>The hotpatch of the geolocation script\<close>

text \<open>
  Claim C2, as the code has it. For an entry whose path matches the pattern of the
  geolocation script and a response with text \<open>t\<close>, the operation opens the stream of
  the entry and writes one text to it. The pattern carries the flag \<open>i\<close>: the text
  written is \<open>t\<close> with the leftmost occurrence of two ASCII letters of either case
  followed by 26 spaces replaced by the placeholder, everything else unchanged; a text
  with no such occurrence is written as it is.
\<close>

theorem hotpatch_written:
  assumes "test_amp_geo (filepath f)"
    and "fetch w log (file_url f) (Some the_fetchOptions) = Inr res"
    and "ok res" and "res_text res = Inr t"
  shows "\<exists>written. snd (fetchAndSaveAsync w log f dest)
           = log @ [Fetch (file_url f) (Some the_fetchOptions),
                    CreateWriteStream (path_join w dest (filepath f)),
                    Write (path_join w dest (filepath f)) written]
     \<and> ((\<forall>i. \<not> letters_spaces_at t i) \<longrightarrow> written = t)
     \<and> (\<forall>i. letters_spaces_at t i \<and> (\<forall>j < i. \<not> letters_spaces_at t j)
              \<longrightarrow> written = take i t @ HOTPATCH @ drop (i + 28) t)"
proof -
  have "snd (fetchAndSaveAsync w log f dest)
           = log @ [Fetch (file_url f) (Some the_fetchOptions),
                    CreateWriteStream (path_join w dest (filepath f)),
                    Write (path_join w dest (filepath f)) (hotpatch t)]"
    using assms by (simp add: fetchAndSaveAsync_def Let_def save_end_log)
  then show ?thesis using hotpatch_none [of t] hotpatch_first [of t] by blast
qed


theorem hotpatch_written_witness:
  "test_amp_geo (filepath geo_file)
   \<and> fetch (example_world complete_site) [] (file_url geo_file) (Some the_fetchOptions)
       = Inr \<lparr>ok = True, res_text = Inr (js geo_text), res_body = bytes geo_text\<rparr>
   \<and> snd (fetchAndSaveAsync (example_world complete_site) [] geo_file (js ''/out''))
       = [Fetch (file_url geo_file) (Some the_fetchOptions),
          CreateWriteStream (js ''/out/v0/amp-geo-0.1.js''),
          Write (js ''/out/v0/amp-geo-0.1.js'') (js ''x={{AMP_ISO_COUNTRY_HOTPATCH}};rest'')]"
proof -
  let ?w = "example_world complete_site"
  let ?res = "\<lparr>ok = True, res_text = Inr (js geo_text), res_body = bytes geo_text\<rparr>"
  have m: "test_amp_geo (filepath geo_file)" by code_simp
  have f: "fetch ?w [] (file_url geo_file) (Some the_fetchOptions) = Inr ?res" by code_simp
  have p: "path_join ?w (js ''/out'') (filepath geo_file) = js ''/out/v0/amp-geo-0.1.js''"
    by code_simp
  have len: "2 \<le> length (js geo_text)" "0 \<le> length (js geo_text)" "1 \<le> length (js geo_text)"
    by (simp_all add: js_def geo_text_def)
  have "country_at (drop 2 (js geo_text))" by code_simp
  then have at: "letters_spaces_at (js geo_text) 2" using len by (simp add: country_at_drop)
  have "\<not> country_at (drop 0 (js geo_text))" "\<not> country_at (drop 1 (js geo_text))"
    by code_simp+
  then have "\<not> letters_spaces_at (js geo_text) 0" "\<not> letters_spaces_at (js geo_text) 1"
    using len country_at_drop [of 0 "js geo_text"] country_at_drop [of 1 "js geo_text"]
    by simp_all
  then have first: "\<forall>j < 2. \<not> letters_spaces_at (js geo_text) j"
    by (simp add: less_2_cases_iff)
  have v: "take 2 (js geo_text) @ HOTPATCH @ drop (2 + 28) (js geo_text)
      = js ''x={{AMP_ISO_COUNTRY_HOTPATCH}};rest''"
    by code_simp
  from hotpatch_written [OF m f, of "js geo_text" "js ''/out''"] at first
  have "snd (fetchAndSaveAsync ?w [] geo_file (js ''/out''))
       = [Fetch (file_url geo_file) (Some the_fetchOptions),
          CreateWriteStream (js ''/out/v0/amp-geo-0.1.js''),
          Write (js ''/out/v0/amp-geo-0.1.js'')
            (take 2 (js geo_text) @ HOTPATCH @ drop (2 + 28) (js geo_text))]"
    unfolding p by auto
  with m f v show ?thesis by simp
qed

text \<open>
  As stated, with lower case letters only, the claim fails: a text without any lower
  case letter is changed.
\<close>

theorem hotpatch_counterexample:
  "\<not> list_ex lowercase (js capitals_text)
   \<and> test_amp_geo (filepath geo_file)
   \<and> fetch (example_world capitals_site) [] (file_url geo_file) (Some the_fetchOptions)
       = Inr \<lparr>ok = True, res_text = Inr (js capitals_text), res_body = bytes capitals_text\<rparr>
   \<and> snd (fetchAndSaveAsync (example_world capitals_site) [] geo_file (js ''/out''))
       = [Fetch (file_url geo_file) (Some the_fetchOptions),
          CreateWriteStream (js ''/out/v0/amp-geo-0.1.js''),
          Write (js ''/out/v0/amp-geo-0.1.js'') (js ''{{AMP_ISO_COUNTRY_HOTPATCH}}'')]
   \<and> js ''{{AMP_ISO_COUNTRY_HOTPATCH}}'' \<noteq> js capitals_text"
  by code_simp

section \<open>The base URL of the bundle\<close>





section \<open>Aggregation of the downloads\<close>

text \<open>
  Claim C4. From the point where the file count is set (line 172), a run that returns
  a result went through the fan-out over all \<open>N\<close> entries of the manifest. The result
  reports \<open>N\<close> files. If some operation rejected, the status is false and the error is
  the fixed prefix followed by the message of the rejection that settled first; if none
  rejected, the status is true.
\<close>

theorem download_aggregation:
  assumes "prepareDestination w opts ret dest files log = (Inr r, log')" and "\<not> status ret"
  shows "\<exists>log5. log' = snd (fetchAndSaveAll w log5 dest files) \<and>
    (let outcomes = fst (fetchAndSaveAll w log5 dest files) in
       length outcomes = length files \<and> count r = length files \<and>
       ((\<exists>i < length outcomes. isl (outcomes ! i)) \<longrightarrow>
          \<not> status r \<and>
          (\<exists>i < length outcomes. \<exists>e. outcomes ! i = Inl e
             \<and> (\<forall>j < length outcomes. isl (outcomes ! j) \<longrightarrow> settled_at w log' i \<le> settled_at w log' j)
             \<and> error r = js ''Failed to download AMP framework'' @ [LF] @ message e)) \<and>
       ((\<forall>i < length outcomes. \<not> isl (outcomes ! i)) \<longrightarrow> status r))"
proof -
  from prepareDestination_returns [OF assms(1)] obtain log5 where
    d: "downloadFiles w (ret\<lparr>count := length files\<rparr>) dest files log5 = (Inr r, log')" by blast
  let ?rs = "fst (fetchAndSaveAll w log5 dest files)"
  let ?ret = "ret\<lparr>count := length files\<rparr>"
  have l: "log' = snd (fetchAndSaveAll w log5 dest files)"
    using downloadFiles_log [of w ?ret dest files log5] d by simp
  have n: "length ?rs = length files" by (rule fetchAndSaveAll_length)
  have fail: "count r = length files \<and> \<not> status r \<and>
          (\<exists>i < length ?rs. \<exists>e. ?rs ! i = Inl e
             \<and> (\<forall>j < length ?rs. isl (?rs ! j) \<longrightarrow> settled_at w log' i \<le> settled_at w log' j)
             \<and> error r = js ''Failed to download AMP framework'' @ [LF] @ message e)"
    if "\<exists>x \<in> set ?rs. isl x"
  proof -
    from downloadFiles_fail [OF that, of ?ret] d l obtain e where
      e: "Promise_all (settled_at w log') ?rs = Inl e"
      "r = ?ret\<lparr>error := js ''Failed to download AMP framework'' @ [LF] @ message e\<rparr>"
      by auto
    from Promise_all_Inl [OF e(1)] obtain i where
      "i < length ?rs" "?rs ! i = Inl e"
      "\<forall>j < length ?rs. isl (?rs ! j) \<longrightarrow> settled_at w log' i \<le> settled_at w log' j"
      by blast
    moreover from e(2) assms(2) have "\<not> status r" "count r = length files"
      "error r = js ''Failed to download AMP framework'' @ [LF] @ message e" by simp_all
    ultimately show ?thesis by blast
  qed
  have succ: "count r = length files \<and> status r" if "\<forall>x \<in> set ?rs. \<not> isl x"
    using downloadFiles_ok [OF that, of ?ret] d by simp
  have cnt: "count r = length files" using fail succ by blast
  have "\<exists>x \<in> set ?rs. isl x" if "\<exists>i < length ?rs. isl (?rs ! i)"
    using that by auto
  moreover have "\<forall>x \<in> set ?rs. \<not> isl x" if "\<forall>i < length ?rs. \<not> isl (?rs ! i)"
    using that by (auto simp: in_set_conv_nth)
  ultimately show ?thesis using l n cnt fail succ unfolding Let_def by blast
qed


theorem download_aggregation_witness:
  "\<not> status example_ret \<and>
   fst (prepareDestination (example_world incomplete_site) example_options example_ret
          (js ''/out'') incomplete_files []) =
     Inr \<lparr>status = False,
          error = js ''Failed to download AMP framework'' @ [LF]
                  @ js ''Failed to fetch https://example.com/rtv/15/v0.js'',
          count = 2, url = [], ret_dest = Some (js ''/out''), ret_rtv = js ''15''\<rparr>"
proof -
  let ?r = "\<lparr>status = False,
          error = js ''Failed to download AMP framework'' @ [LF]
                  @ js ''Failed to fetch https://example.com/rtv/15/v0.js'',
          count = 2, url = [], ret_dest = Some (js ''/out''), ret_rtv = js ''15''\<rparr>"
  let ?run = "prepareDestination (example_world incomplete_site) example_options example_ret
          (js ''/out'') incomplete_files []"
  have f: "fst ?run = Inr ?r" by code_simp
  then have h: "?run = (Inr ?r, snd ?run)" by (metis prod.collapse)
  have s: "\<not> status example_ret" by (simp add: example_ret_def)
  from download_aggregation [OF h s] have "count ?r = length incomplete_files"
    by (auto simp: Let_def)
  with f s show ?thesis by simp
qed

section \<open>A listing must list itself\<close>

text \<open>
  Claim C5. When the listing is fetched and read but none of its lines is
  \<open>files.txt\<close>, the run ends at once with a result whose error is the
  listing-validity message; its other fields are as they were (the status is still
  false). The log gains the fetch of the listing and nothing else: no directory is
  read, cleared or created and no file is fetched or written.
\<close>

theorem unlisted_manifest_rejected:
  assumes "fetch w log (frameworkBaseUrl prefix v @ FRAMEWORK_FILES_TXT) None = Inr res"
    and "ok res" and "res_text res = Inr t"
    and "FRAMEWORK_FILES_TXT \<notin> set (split_lines t)"
  shows "fetchFilesListing w opts ret dest v prefix log =
     (Inr (ret\<lparr>url := frameworkBaseUrl prefix v,
               error := js ''Unable to read AMP framework files listing'' @ [LF]
                 @ js ''Expected files.txt in file listing, but it was not found.''\<rparr>),
      log @ [Fetch (frameworkBaseUrl prefix v @ FRAMEWORK_FILES_TXT) None])"
proof -
  have "\<not> list_ex (\<lambda>file. filepath file = FRAMEWORK_FILES_TXT)
           (parse_listing (frameworkBaseUrl prefix v) t)"
    using assms(4) by (simp add: listed_iff)
  moreover have "js ''Expected '' @ FRAMEWORK_FILES_TXT @ js '' in file listing, but it was not found.''
     = js ''Expected files.txt in file listing, but it was not found.''"
    by (simp add: FRAMEWORK_FILES_TXT_def js_def)
  ultimately show ?thesis using assms(1-3)
    by (simp add: fetchFilesListing_def Let_def listing_error_def)
qed


theorem unlisted_manifest_rejected_witness:
  "fetch (example_world unlisted_site) []
       (frameworkBaseUrl (js ''https://example.com'') (js ''15'') @ FRAMEWORK_FILES_TXT) None
     = Inr \<lparr>ok = True, res_text = Inr (js unlisted_text), res_body = bytes unlisted_text\<rparr>
   \<and> FRAMEWORK_FILES_TXT \<notin> set (split_lines (js unlisted_text))
   \<and> getFramework (example_world unlisted_site) example_options
     = (Inr \<lparr>status = False,
            error = js ''Unable to read AMP framework files listing'' @ [LF]
                    @ js ''Expected files.txt in file listing, but it was not found.'',
            count = 0, url = js ''https://example.com/rtv/15/'',
            ret_dest = Some (js ''/out''), ret_rtv = js ''15''\<rparr>,
        [Fetch (js ''https://example.com/rtv/15/files.txt'') None])"
proof -
  let ?w = "example_world unlisted_site"
  let ?res = "\<lparr>ok = True, res_text = Inr (js unlisted_text), res_body = bytes unlisted_text\<rparr>"
  have f: "fetch ?w [] (frameworkBaseUrl (js ''https://example.com'') (js ''15'')
              @ FRAMEWORK_FILES_TXT) None = Inr ?res"
    by code_simp
  have n: "FRAMEWORK_FILES_TXT \<notin> set (split_lines (js unlisted_text))" by code_simp
  have g: "getFramework ?w example_options
      = fetchFilesListing ?w example_options
          \<lparr>status = False, error = [], count = 0, url = [],
           ret_dest = Some (js ''/out''), ret_rtv = js ''15''\<rparr>
          (js ''/out'') (js ''15'') (js ''https://example.com'') []"
    by code_simp
  have u: "frameworkBaseUrl (js ''https://example.com'') (js ''15'')
      = js ''https://example.com/rtv/15/''"
    "js ''https://example.com/rtv/15/'' @ FRAMEWORK_FILES_TXT
      = js ''https://example.com/rtv/15/files.txt''"
    by code_simp+
  from unlisted_manifest_rejected [OF f _ _ n, of example_options _ "js ''/out''"] g u f n
  show ?thesis by simp
qed

section \<open>A version supplied by the caller\<close>




section \<open>Parsing the files listing\<close>

text \<open>
  Claim C7, as the code has it. The entries are the non-empty lines of the response
  text, in order, each with the URL made of the base URL and the line; lines end at a
  line feed or at a carriage return followed by a line feed (\<open>split_lines_spec\<close>). When
  one of the lines is \<open>files.txt\<close>, the run goes on with these entries and every
  result it returns reports their number as its file count. (When none is, the run
  ends with file count 0.)
\<close>

theorem listing_parsed:
  assumes "fetch w log (frameworkBaseUrl prefix v @ FRAMEWORK_FILES_TXT) None = Inr res"
    and "ok res" and "res_text res = Inr t"
    and "FRAMEWORK_FILES_TXT \<in> set (split_lines t)"
  shows "let base = frameworkBaseUrl prefix v;
             entries = map (\<lambda>p. \<lparr>filepath = p, file_url = base @ p\<rparr>)
                         (filter (\<lambda>p. p \<noteq> []) (split_lines t))
         in fetchFilesListing w opts ret dest v prefix log
              = prepareDestination w opts (ret\<lparr>url := base\<rparr>) dest entries
                  (log @ [Fetch (base @ FRAMEWORK_FILES_TXT) None])
          \<and> (\<forall>r l. fetchFilesListing w opts ret dest v prefix log = (Inr r, l)
                \<longrightarrow> count r = length entries)"
proof -
  let ?base = "frameworkBaseUrl prefix v"
  have ex: "list_ex (\<lambda>file. filepath file = FRAMEWORK_FILES_TXT) (parse_listing ?base t)"
    using assms(4) by (simp add: listed_iff)
  have eq: "fetchFilesListing w opts ret dest v prefix log
      = prepareDestination w opts (ret\<lparr>url := ?base\<rparr>) dest (parse_listing ?base t)
          (log @ [Fetch (?base @ FRAMEWORK_FILES_TXT) None])"
    using assms(1-3) ex by (simp add: fetchFilesListing_def Let_def)
  have "count r = length (parse_listing ?base t)"
    if "fetchFilesListing w opts ret dest v prefix log = (Inr r, l)" for r l
    using that prepareDestination_frame unfolding eq by blast
  with eq show ?thesis unfolding Let_def parse_listing_def by blast
qed



theorem listing_parsed_witness:
  "fetch (example_world complete_site) []
       (frameworkBaseUrl (js ''https://example.com'') (js ''15'') @ FRAMEWORK_FILES_TXT) None
     = Inr \<lparr>ok = True, res_text = Inr (js complete_text), res_body = bytes complete_text\<rparr>
   \<and> split_lines (js complete_text) = [js ''files.txt'', js ''v0/amp-geo-0.1.js'', []]
   \<and> fst (fetchFilesListing (example_world complete_site) example_options example_ret
            (js ''/out'') (js ''15'') (js ''https://example.com'') [])
     = Inr \<lparr>status = True, error = [], count = 2, url = js ''https://example.com/rtv/15/'',
            ret_dest = Some (js ''/out''), ret_rtv = js ''15''\<rparr>"
proof -
  let ?w = "example_world complete_site"
  let ?res = "\<lparr>ok = True, res_text = Inr (js complete_text), res_body = bytes complete_text\<rparr>"
  let ?run = "fetchFilesListing ?w example_options example_ret
            (js ''/out'') (js ''15'') (js ''https://example.com'') []"
  let ?r = "\<lparr>status = True, error = [], count = 2, url = js ''https://example.com/rtv/15/'',
            ret_dest = Some (js ''/out''), ret_rtv = js ''15''\<rparr>"
  have f: "fetch ?w [] (frameworkBaseUrl (js ''https://example.com'') (js ''15'')
              @ FRAMEWORK_FILES_TXT) None = Inr ?res"
    by code_simp
  have s: "split_lines (js complete_text) = [js ''files.txt'', js ''v0/amp-geo-0.1.js'', []]"
    by code_simp
  then have m: "FRAMEWORK_FILES_TXT \<in> set (split_lines (js complete_text))"
    by (simp add: FRAMEWORK_FILES_TXT_def)
  have r: "fst ?run = Inr ?r" by code_simp
  then have h: "?run = (Inr ?r, snd ?run)" by (metis prod.collapse)
  have "ok ?res" "res_text ?res = Inr (js complete_text)" by simp_all
  from listing_parsed [OF f this m, of example_options example_ret "js ''/out''",
      unfolded Let_def, THEN conjunct2, rule_format, OF h]
  have "count ?r = length (filter (\<lambda>p. p \<noteq> []) (split_lines (js complete_text)))"
    by simp
  with f s r show ?thesis by simp
qed

text \<open>
  As stated, for every response text, the claim fails: the listing of the
  specification's own example has two entries, and the result reports no file.
\<close>

theorem listing_parsed_counterexample:
  "length (parse_listing (js ''https://example.com/rtv/15/'') (js unlisted_text)) = 2
   \<and> fst (getFramework (example_world unlisted_site) example_options)
     = Inr \<lparr>status = False,
            error = js ''Unable to read AMP framework files listing'' @ [LF]
                    @ js ''Expected files.txt in file listing, but it was not found.'',
            count = 0, url = js ''https://example.com/rtv/15/'',
            ret_dest = Some (js ''/out''), ret_rtv = js ''15''\<rparr>"
  by code_simp

section \<open>Clearing the destination, or keeping what is there\<close>



section \<open>The listing is materialized like any other entry\<close>




section \<open>The fields of the result\<close>




end
